theory Spec2Isabelle
  imports Main "HOL-Library.Product_Lexorder" "HOL-Library.Option_ord"
begin

section \<open>The to-do list application: tables, requests and responses\<close>

text \<open>
  A shallow embedding of \<^verbatim>\<open>src/main.py\<close>, a Flask application over four SQLAlchemy
  tables. Every view function becomes a function from the request and the database
  to a response and the database after the request. A \<^verbatim>\<open>db.session.commit()\<close> is the
  point where the pending changes become the new database; an exception that the view does
  not catch ends the request with a server error and the changes that were not committed
  are discarded. The views \<^verbatim>\<open>register\<close>, \<^verbatim>\<open>login\<close> and \<^verbatim>\<open>logout\<close> are not
  embedded: the login session they set up is an input of a request.

  Field names carry a prefix where two tables share a column name:
  \<^verbatim>\<open>Categories.id/name\<close> are \<open>cat_id\<close>, \<open>cat_name\<close>; \<^verbatim>\<open>ToDos.id/name\<close> are \<open>todo_id\<close>,
  \<open>todo_name\<close>; \<^verbatim>\<open>GotDones.id/name/category/date\<close> are \<open>done_id\<close>, \<open>done_name\<close>,
  \<open>done_category\<close>, \<open>done_date\<close>; \<^verbatim>\<open>User.id/parent_id/name\<close> are \<open>user_id\<close>,
  \<open>user_parent_id\<close>, \<open>user_name\<close>.
\<close>

subsection \<open>Dates\<close>

text \<open>
  A \<^verbatim>\<open>datetime.date\<close> is its (year, month, day); Python compares two dates as these
  triples, lexicographically, which is the order of \<open>Product_Lexorder\<close>.
\<close>

type_synonym date = "nat \<times> nat \<times> nat"

subsection \<open>The tables\<close>

text \<open>The exceptions that the views meet.\<close>

datatype error = AttributeError | IntegrityError | UnmappedInstanceError | OverflowError

record category =
  cat_id :: nat
  cat_name :: string

record to_do =
  todo_id :: nat
  todo_name :: string
  parent_id :: "nat option"
  due_date :: "date option"

record got_done =
  done_id :: nat
  done_name :: string
  done_category :: string
  done_date :: "date option"

record user =
  user_id :: nat
  user_parent_id :: "nat option"
  email :: string
  password :: string
  user_name :: string

text \<open>The rows of each table, in the order of their insertion.\<close>

record db =
  categories :: "category list"
  to_dos :: "to_do list"
  got_dones :: "got_done list"
  users :: "user list"

text \<open>
  An \<^verbatim>\<open>INTEGER PRIMARY KEY\<close> column of SQLite that is given no value on insertion takes
  the largest key in use plus one, and 1 in an empty table.
\<close>

definition next_id :: "nat list \<Rightarrow> nat" where
  "next_id ids = Suc (fold max ids 0)"

text \<open>\<^verbatim>\<open>db.session.get(Model, id)\<close>: the row with that primary key, or \<^verbatim>\<open>None\<close>.\<close>

definition get_category :: "db \<Rightarrow> nat \<Rightarrow> category option" where
  "get_category d i = find (\<lambda>c. cat_id c = i) (categories d)"

definition get_user :: "db \<Rightarrow> nat \<Rightarrow> user option" where
  "get_user d i = find (\<lambda>u. user_id u = i) (users d)"

text \<open>The row of \<^verbatim>\<open>to_dos\<close> with a given primary key, if there is one.\<close>

definition find_to_do :: "db \<Rightarrow> nat \<Rightarrow> to_do option" where
  "find_to_do d i = find (\<lambda>t. todo_id t = i) (to_dos d)"

text \<open>
  \<^verbatim>\<open>db.session.get(ToDos, to_do_id)\<close> on the id of a URL. The converter
  \<^verbatim>\<open><int:to_do_id>\<close> admits every number; the integers of SQLite end at \<open>2 ^ 63 - 1\<close>, and
  binding a larger one raises \<^verbatim>\<open>OverflowError\<close> before any row is read. Otherwise the
  result is the row with that primary key, or \<^verbatim>\<open>None\<close>.
\<close>

definition get_to_do :: "db \<Rightarrow> nat \<Rightarrow> error + to_do option" where
  "get_to_do d i = (if i < 2 ^ 63 then Inr (find_to_do d i) else Inl OverflowError)"

text \<open>\<^verbatim>\<open>Categories.query.filter_by(name=n).first()\<close>.\<close>

definition category_by_name :: "db \<Rightarrow> string \<Rightarrow> category option" where
  "category_by_name d n = find (\<lambda>c. cat_name c = n) (categories d)"

text \<open>
  The relationship \<^verbatim>\<open>ToDos.parent_category\<close>: the category the foreign key
  \<^verbatim>\<open>parent_id\<close> names, \<^verbatim>\<open>None\<close> when the key is null or names no row.
\<close>

definition parent_category :: "db \<Rightarrow> to_do \<Rightarrow> category option" where
  "parent_category d t =
     (case parent_id t of None \<Rightarrow> None | Some i \<Rightarrow> get_category d i)"

text \<open>
  \<^verbatim>\<open>str(category)\<close>: \<^verbatim>\<open>Categories.__repr__\<close> returns the name, and \<^verbatim>\<open>str(None)\<close> is the
  text \<^verbatim>\<open>None\<close>.
\<close>

fun str_category :: "category option \<Rightarrow> string" where
  "str_category None = ''None''"
| "str_category (Some c) = cat_name c"

text \<open>
  \<^verbatim>\<open>db.session.delete(to_do)\<close> followed by a commit: the row leaves \<^verbatim>\<open>to_dos\<close>, and the
  relationship \<^verbatim>\<open>ToDos.parent_user\<close> (a foreign key on \<^verbatim>\<open>users\<close>, no delete cascade)
  sets the key of the users that named the row to null.
\<close>

definition session_delete_to_do :: "nat \<Rightarrow> db \<Rightarrow> db" where
  "session_delete_to_do i d =
     d\<lparr>to_dos := filter (\<lambda>t. todo_id t \<noteq> i) (to_dos d),
       users := map (\<lambda>u. if user_parent_id u = Some i then u\<lparr>user_parent_id := None\<rparr> else u)
                  (users d)\<rparr>"

text \<open>
  \<^verbatim>\<open>db.session.delete(category)\<close> followed by a commit: the row leaves \<^verbatim>\<open>categories\<close>,
  and the relationship \<^verbatim>\<open>Categories.to_dos_category\<close> (no delete cascade) sets
  \<^verbatim>\<open>parent_id\<close> of the to-dos of the category to null.
\<close>

definition session_delete_category :: "category \<Rightarrow> db \<Rightarrow> db" where
  "session_delete_category c d =
     d\<lparr>categories := filter (\<lambda>x. cat_id x \<noteq> cat_id c) (categories d),
       to_dos := map (\<lambda>t. if parent_id t = Some (cat_id c) then t\<lparr>parent_id := None\<rparr> else t)
                   (to_dos d)\<rparr>"

definition session_delete_got_done :: "got_done \<Rightarrow> db \<Rightarrow> db" where
  "session_delete_got_done g d =
     d\<lparr>got_dones := filter (\<lambda>x. done_id x \<noteq> done_id g) (got_dones d)\<rparr>"

subsection \<open>Requests and responses\<close>

datatype http_method = GET | POST

text \<open>
  What a view reads of a request: the method (\<open>req_method\<close>), the user id of the login
  session (if any),
  whether the CSRF token of the form is valid, and the submitted fields. A text field that
  is absent behaves as the empty text (both fail \<^verbatim>\<open>DataRequired\<close>); a date field that is
  absent or does not parse has no data.
\<close>

record request =
  req_method :: http_method
  session_user_id :: "nat option"
  csrf_ok :: bool
  form_name :: string
  form_category :: string
  form_due_date :: "date option"

datatype field_error = Csrf_error | Field_required | Not_a_valid_choice | ValidationError string

datatype target =
    To_login
  | To_dashboard "nat option"
  | To_show_category string
  | To_show_to_do nat
  | To_got_done

datatype page =
    Index_page "to_do list"
  | Add_new_category_page "field_error list"
  | Show_category_page category
  | All_categories_page "category list"
  | All_to_dos_page "to_do list"
  | Add_new_to_do_page "field_error list"
  | Show_to_do_page "to_do option"
  | Update_to_do_page "field_error list" to_do
  | Update_category_page "field_error list" "category option"
  | Got_done_page "got_done list"

text \<open>
  The outcome of a view: a redirect, a rendered template, an exception the view did not
  catch (a server error), or an abort with \<^verbatim>\<open>404 Not Found\<close> or
  \<^verbatim>\<open>405 Method Not Allowed\<close>.
\<close>

datatype body =
    Redirect target
  | Render page
  | Raised error
  | NotFound
  | MethodNotAllowed

record response =
  flashed :: "string list"
  body :: body

definition plain :: "body \<Rightarrow> response" where
  "plain b = \<lparr>flashed = [], body = b\<rparr>"

definition flash :: "string \<Rightarrow> body \<Rightarrow> response" where
  "flash msg b = \<lparr>flashed = [msg], body = b\<rparr>"

subsection \<open>Form validation\<close>

text \<open>
  The characters of the model are the code points below 256. \<^verbatim>\<open>str.strip()\<close> removes
  the characters for which \<^verbatim>\<open>str.isspace()\<close> holds, which below 256 are 9 to 13, 28 to 32,
  133 and 160.
\<close>

definition py_isspace :: "char \<Rightarrow> bool" where
  "py_isspace c =
     (let n = (of_char c :: nat)
      in (9 \<le> n \<and> n \<le> 13) \<or> (28 \<le> n \<and> n \<le> 32) \<or> n = 133 \<or> n = 160)"

text \<open>
  \<^verbatim>\<open>DataRequired\<close> on a text field: the data is not empty and \<^verbatim>\<open>data.strip()\<close> is not
  empty, that is, some character of it is not white space.
\<close>

definition data_required :: "string \<Rightarrow> bool" where
  "data_required s = (filter (\<lambda>c. \<not> py_isspace c) s \<noteq> [])"

text \<open>
  \<^verbatim>\<open>date_check\<close>, the validator of the source: it raises \<^verbatim>\<open>ValidationError\<close> when the
  data of the field is before today's date. The result lists what it raised.
\<close>

definition date_check :: "date \<Rightarrow> date \<Rightarrow> field_error list" where
  "date_check today data =
     (if data < today then [ValidationError ''Due Date can't be in the past!''] else [])"

text \<open>\<^verbatim>\<open>StringField(validators=[DataRequired()])\<close>.\<close>

definition string_field_errors :: "string \<Rightarrow> field_error list" where
  "string_field_errors s = (if data_required s then [] else [Field_required])"

text \<open>
  \<^verbatim>\<open>SelectField(choices=categories, validators=[DataRequired()])\<close>: the choices are
  the categories, each compared through \<^verbatim>\<open>str\<close>, so the data must be the name of one of
  them; \<^verbatim>\<open>DataRequired\<close> replaces the error of the choice by its own.
\<close>

definition select_field_errors :: "category list \<Rightarrow> string \<Rightarrow> field_error list" where
  "select_field_errors choices s =
     (if \<not> data_required s then [Field_required]
      else if s \<in> set (map cat_name choices) then []
      else [Not_a_valid_choice])"

text \<open>
  \<^verbatim>\<open>DateField(validators=[DataRequired(), date_check])\<close>: \<^verbatim>\<open>DataRequired\<close> stops the
  chain when the field has no data, so \<^verbatim>\<open>date_check\<close> only sees a date.
\<close>

definition date_field_errors :: "date \<Rightarrow> date option \<Rightarrow> field_error list" where
  "date_field_errors today x =
     (case x of None \<Rightarrow> [Field_required] | Some data \<Rightarrow> date_check today data)"

text \<open>The fields of \<^verbatim>\<open>CategoryForm\<close> and \<^verbatim>\<open>UpdateCategoryForm\<close>.\<close>

definition category_form_errors :: "request \<Rightarrow> field_error list" where
  "category_form_errors rq = string_field_errors (form_name rq)"

text \<open>The fields of \<^verbatim>\<open>ToDoForm\<close> and \<^verbatim>\<open>UpdateToDoForm\<close>, built from the categories
  of the request's moment.\<close>

definition to_do_form_errors :: "category list \<Rightarrow> date \<Rightarrow> request \<Rightarrow> field_error list" where
  "to_do_form_errors choices today rq =
     string_field_errors (form_name rq)
     @ select_field_errors choices (form_category rq)
     @ date_field_errors today (form_due_date rq)"

text \<open>
  The errors a form shows: none before it is submitted; after, that of the CSRF token
  and those of the fields.
\<close>

definition form_errors :: "request \<Rightarrow> field_error list \<Rightarrow> field_error list" where
  "form_errors rq field_errs =
     (if req_method rq = POST then (if csrf_ok rq then [] else [Csrf_error]) @ field_errs else [])"

text \<open>\<^verbatim>\<open>form.validate_on_submit()\<close>: the request submits the form, and nothing fails.\<close>

definition validate_on_submit :: "request \<Rightarrow> field_error list \<Rightarrow> bool" where
  "validate_on_submit rq field_errs = (req_method rq = POST \<and> form_errors rq field_errs = [])"

section \<open>The views\<close>

text \<open>
  \<^verbatim>\<open>current_user.is_authenticated\<close> in \<^verbatim>\<open>dashboard\<close>: without a user id in the session
  the user is anonymous; with one, \<^verbatim>\<open>load_user\<close> is \<^verbatim>\<open>db.get_or_404(User, user_id)\<close>.
\<close>

definition dashboard :: "request \<Rightarrow> db \<Rightarrow> response \<times> db" where
  "dashboard rq d =
     (case session_user_id rq of
        None \<Rightarrow> (flash ''You need to login or register to comment.'' (Redirect To_login), d)
      | Some uid \<Rightarrow>
          (case get_user d uid of
             None \<Rightarrow> (plain NotFound, d)
           | Some u \<Rightarrow> (plain (Render (Index_page (to_dos d))), d)))"

text \<open>
  \<^verbatim>\<open>add_new_category\<close>: the commit raises \<^verbatim>\<open>IntegrityError\<close> when a row has the name
  already (\<^verbatim>\<open>unique=True\<close>); the view catches it, flashes, and redirects all the same.
\<close>

definition add_new_category :: "request \<Rightarrow> db \<Rightarrow> response \<times> db" where
  "add_new_category rq d =
     (if validate_on_submit rq (category_form_errors rq) then
        (let new_category =
               \<lparr>cat_id = next_id (map cat_id (categories d)), cat_name = form_name rq\<rparr>
         in if cat_name new_category \<in> set (map cat_name (categories d))
            then (flash ''This Category already exists!''
                    (Redirect (To_show_category (cat_name new_category))), d)
            else (plain (Redirect (To_show_category (cat_name new_category))),
                  d\<lparr>categories := categories d @ [new_category]\<rparr>))
      else (plain (Render (Add_new_category_page (form_errors rq (category_form_errors rq)))), d))"

text \<open>\<^verbatim>\<open>show_category\<close>: \<^verbatim>\<open>requested_category.id\<close> raises when no category has the name.\<close>

definition show_category :: "string \<Rightarrow> db \<Rightarrow> response \<times> db" where
  "show_category category d =
     (case category_by_name d category of
        None \<Rightarrow> (plain (Raised AttributeError), d)
      | Some requested_category \<Rightarrow> (plain (Render (Show_category_page requested_category)), d))"

definition all_categories :: "db \<Rightarrow> response \<times> db" where
  "all_categories d = (plain (Render (All_categories_page (categories d))), d)"

definition all_to_dos :: "db \<Rightarrow> response \<times> db" where
  "all_to_dos d = (plain (Render (All_to_dos_page (to_dos d))), d)"

text \<open>
  \<^verbatim>\<open>add_new_to_do\<close>: the form is validated against the categories and the date of the
  request; a valid form stores a new to-do under the first category of the chosen name.
\<close>

definition add_new_to_do :: "date \<Rightarrow> request \<Rightarrow> db \<Rightarrow> response \<times> db" where
  "add_new_to_do today rq d =
     (let errs = to_do_form_errors (categories d) today rq
      in if validate_on_submit rq errs then
           (let category = category_by_name d (form_category rq);
                new_to_do =
                  \<lparr>todo_id = next_id (map todo_id (to_dos d)), todo_name = form_name rq,
                   parent_id = map_option cat_id category, due_date = form_due_date rq\<rparr>
            in (plain (Redirect (To_show_to_do (todo_id new_to_do))),
                d\<lparr>to_dos := to_dos d @ [new_to_do]\<rparr>))
         else (plain (Render (Add_new_to_do_page (form_errors rq errs))), d))"

definition show_to_do :: "nat \<Rightarrow> db \<Rightarrow> response \<times> db" where
  "show_to_do to_do_id d =
     (case get_to_do d to_do_id of
        Inl e \<Rightarrow> (plain (Raised e), d)
      | Inr requested_to_do \<Rightarrow> (plain (Render (Show_to_do_page requested_to_do)), d))"

text \<open>
  The class \<^verbatim>\<open>ToDos\<close> declares no attribute \<^verbatim>\<open>subtasks\<close>: reading it raises
  \<^verbatim>\<open>AttributeError\<close>.
\<close>

definition subtasks :: "to_do \<Rightarrow> error + string list" where
  "subtasks t = Inl AttributeError"

text \<open>
  \<^verbatim>\<open>update_to_do\<close>: the form class reads \<^verbatim>\<open>to_do_update.name\<close> for its defaults, which
  raises when the id names no to-do. A valid form replaces the three fields and commits;
  the view then reads \<^verbatim>\<open>to_do_update.subtasks\<close>.
\<close>

definition update_to_do :: "nat \<Rightarrow> date \<Rightarrow> request \<Rightarrow> db \<Rightarrow> response \<times> db" where
  "update_to_do to_do_id today rq d =
     (case get_to_do d to_do_id of
        Inl e \<Rightarrow> (plain (Raised e), d)
      | Inr None \<Rightarrow> (plain (Raised AttributeError), d)
      | Inr (Some to_do_update) \<Rightarrow>
          (let errs = to_do_form_errors (categories d) today rq;
               category = category_by_name d (form_category rq)
           in if validate_on_submit rq errs then
                (let d' = d\<lparr>to_dos :=
                             map (\<lambda>t. if todo_id t = to_do_id
                                      then t\<lparr>todo_name := form_name rq,
                                             parent_id := map_option cat_id category,
                                             due_date := form_due_date rq\<rparr>
                                      else t) (to_dos d)\<rparr>
                 in case subtasks to_do_update of
                      Inl e \<Rightarrow> (plain (Raised e), d')
                    | Inr subtask_update \<Rightarrow> (plain (Redirect (To_show_to_do to_do_id)), d'))
              else (plain (Render (Update_to_do_page (form_errors rq errs) to_do_update)), d)))"

text \<open>\<^verbatim>\<open>delete\<close> (\<^verbatim>\<open>/delete/<id>\<close>): reads \<^verbatim>\<open>requested_to_do.subtasks\<close> before it deletes.\<close>

definition delete :: "nat \<Rightarrow> db \<Rightarrow> response \<times> db" where
  "delete to_do_id d =
     (case get_to_do d to_do_id of
        Inl e \<Rightarrow> (plain (Raised e), d)
      | Inr None \<Rightarrow> (plain (Raised AttributeError), d)
      | Inr (Some requested_to_do) \<Rightarrow>
          (case subtasks requested_to_do of
             Inl e \<Rightarrow> (plain (Raised e), d)
           | Inr sub \<Rightarrow>
               if sub \<noteq> []
               then (flash ''You have subtasks that haven't been done yet!''
                       (Render (Show_to_do_page (Some requested_to_do))), d)
               else (plain (Redirect (To_dashboard None)), session_delete_to_do to_do_id d)))"

text \<open>
  \<^verbatim>\<open>update_category\<close>: \<^verbatim>\<open>category_update.name = ...\<close> raises when the id names no
  category; the commit raises \<^verbatim>\<open>IntegrityError\<close>, which the view does not catch, when
  another row has the new name.
\<close>

definition update_category :: "nat \<Rightarrow> request \<Rightarrow> db \<Rightarrow> response \<times> db" where
  "update_category category_id rq d =
     (let category_update = get_category d category_id
      in if validate_on_submit rq (category_form_errors rq) then
           (case category_update of
              None \<Rightarrow> (plain (Raised AttributeError), d)
            | Some c \<Rightarrow>
                if filter (\<lambda>x. cat_id x \<noteq> category_id \<and> cat_name x = form_name rq) (categories d)
                     \<noteq> []
                then (plain (Raised IntegrityError), d)
                else (plain (Redirect (To_show_category (form_name rq))),
                      d\<lparr>categories :=
                          map (\<lambda>x. if cat_id x = category_id then x\<lparr>cat_name := form_name rq\<rparr>
                                   else x) (categories d)\<rparr>))
         else (plain (Render (Update_category_page
                                (form_errors rq (category_form_errors rq)) category_update)), d))"

text \<open>
  \<^verbatim>\<open>mark_done\<close>: \<^verbatim>\<open>requested_to_do.name\<close> raises when the id names no to-do. Otherwise
  one commit adds the new \<^verbatim>\<open>GotDones\<close> row and deletes the to-do.
\<close>

definition mark_done :: "nat \<Rightarrow> date \<Rightarrow> db \<Rightarrow> response \<times> db" where
  "mark_done to_do_id today d =
     (case get_to_do d to_do_id of
        Inl e \<Rightarrow> (plain (Raised e), d)
      | Inr None \<Rightarrow> (plain (Raised AttributeError), d)
      | Inr (Some requested_to_do) \<Rightarrow>
          (let new_got_done =
                 \<lparr>done_id = next_id (map done_id (got_dones d)),
                  done_name = todo_name requested_to_do,
                  done_category = str_category (parent_category d requested_to_do),
                  done_date = Some today\<rparr>
           in (plain (Redirect (To_dashboard (Some to_do_id))),
               session_delete_to_do to_do_id (d\<lparr>got_dones := got_dones d @ [new_got_done]\<rparr>))))"

text \<open>
  \<^verbatim>\<open>got_done\<close>: the archive by date, latest first; a null date sorts last, as in SQLite.
  SQL leaves the order of rows of one date open; here they keep the order of insertion.
\<close>

definition got_done_view :: "db \<Rightarrow> response \<times> db" where
  "got_done_view d =
     (plain (Render (Got_done_page (rev (sort_key done_date (rev (got_dones d)))))), d)"

text \<open>\<^verbatim>\<open>clear_got_done\<close>: deletes the rows of \<^verbatim>\<open>got_dones\<close> one by one, a commit each.\<close>

definition clear_got_done :: "db \<Rightarrow> response \<times> db" where
  "clear_got_done d =
     (let data_to_delete = got_dones d
      in (plain (Redirect To_got_done), fold session_delete_got_done data_to_delete d))"

text \<open>
  \<^verbatim>\<open>delete_to_do\<close> (\<^verbatim>\<open>/delete-with-sub/<id>\<close>): \<^verbatim>\<open>db.session.delete(None)\<close> raises
  \<^verbatim>\<open>UnmappedInstanceError\<close>.
\<close>

definition delete_to_do :: "nat \<Rightarrow> db \<Rightarrow> response \<times> db" where
  "delete_to_do to_do_id d =
     (case get_to_do d to_do_id of
        Inl e \<Rightarrow> (plain (Raised e), d)
      | Inr None \<Rightarrow> (plain (Raised UnmappedInstanceError), d)
      | Inr (Some requested_to_do) \<Rightarrow>
          (plain (Redirect (To_dashboard None)), session_delete_to_do to_do_id d))"

text \<open>
  \<^verbatim>\<open>clear_categories\<close>: deletes the categories one by one, a commit each. It is
  registered under \<^verbatim>\<open>/clear-got-done\<close>, after \<^verbatim>\<open>clear_got_done\<close>.
\<close>

definition clear_categories :: "db \<Rightarrow> response \<times> db" where
  "clear_categories d =
     (let categories_to_delete = categories d
      in (plain (Redirect (To_dashboard None)), fold session_delete_category categories_to_delete d))"

subsection \<open>Routing\<close>

text \<open>
  The URL rules of the views above. Two rules have the path \<^verbatim>\<open>/clear-got-done\<close>; the
  one registered first, \<^verbatim>\<open>clear_got_done\<close>, answers. A rule without \<^verbatim>\<open>methods\<close> answers
  a POST with \<^verbatim>\<open>405\<close>. No view but \<^verbatim>\<open>dashboard\<close> reads the login session.
\<close>

datatype route =
    Dashboard
  | Add_new_category
  | Show_category string
  | All_categories
  | All_to_dos
  | Add_new_to_do
  | Show_to_do nat
  | Update_to_do nat
  | Delete nat
  | Update_category nat
  | Mark_done nat
  | Got_done
  | Clear_got_done
  | Delete_with_sub nat

fun allows_post :: "route \<Rightarrow> bool" where
  "allows_post Dashboard = True"
| "allows_post Add_new_category = True"
| "allows_post Add_new_to_do = True"
| "allows_post (Update_to_do i) = True"
| "allows_post (Update_category i) = True"
| "allows_post r = False"

fun view :: "date \<Rightarrow> route \<Rightarrow> request \<Rightarrow> db \<Rightarrow> response \<times> db" where
  "view today Dashboard rq d = dashboard rq d"
| "view today Add_new_category rq d = add_new_category rq d"
| "view today (Show_category n) rq d = show_category n d"
| "view today All_categories rq d = all_categories d"
| "view today All_to_dos rq d = all_to_dos d"
| "view today Add_new_to_do rq d = add_new_to_do today rq d"
| "view today (Show_to_do i) rq d = show_to_do i d"
| "view today (Update_to_do i) rq d = update_to_do i today rq d"
| "view today (Delete i) rq d = delete i d"
| "view today (Update_category i) rq d = update_category i rq d"
| "view today (Mark_done i) rq d = mark_done i today d"
| "view today Got_done rq d = got_done_view d"
| "view today Clear_got_done rq d = clear_got_done d"
| "view today (Delete_with_sub i) rq d = delete_to_do i d"

definition handle :: "date \<Rightarrow> route \<Rightarrow> request \<Rightarrow> db \<Rightarrow> response \<times> db" where
  "handle today r rq d =
     (if req_method rq = POST \<and> \<not> allows_post r then (plain MethodNotAllowed, d)
      else view today r rq d)"

subsection \<open>Sequences of category operations\<close>

text \<open>
  A later renaming of a category is a request to \<^verbatim>\<open>update_category\<close>; a later deletion
  is \<^verbatim>\<open>clear_categories\<close>, the only code that deletes a category.
\<close>

datatype category_op = Rename_category nat request | Delete_categories

fun apply_category_op :: "category_op \<Rightarrow> db \<Rightarrow> db" where
  "apply_category_op (Rename_category i rq) d = snd (update_category i rq d)"
| "apply_category_op Delete_categories d = snd (clear_categories d)"

definition run_category_ops :: "category_op list \<Rightarrow> db \<Rightarrow> db" where
  "run_category_ops ops d = fold apply_category_op ops d"

subsection \<open>Sequences of requests\<close>

text \<open>A request arrives on a day, at a route; the requests of a list are answered in turn.\<close>

definition run_requests :: "(date \<times> route \<times> request) list \<Rightarrow> db \<Rightarrow> db" where
  "run_requests steps d = fold (\<lambda>(today, r, rq) d. snd (handle today r rq d)) steps d"

subsection \<open>The unique columns of the categories\<close>

text \<open>
  \<^verbatim>\<open>Categories.id\<close> is the primary key and \<^verbatim>\<open>Categories.name\<close> is declared
  \<^verbatim>\<open>unique=True\<close>: in a database SQLite holds, no two rows share either.
\<close>

definition unique_categories :: "db \<Rightarrow> bool" where
  "unique_categories d =
     (distinct (map cat_id (categories d)) \<and> distinct (map cat_name (categories d)))"

subsection \<open>A database and requests to evaluate the views on\<close>

definition ex_db :: db where
  "ex_db =
     \<lparr>categories = [\<lparr>cat_id = 2, cat_name = ''Work''\<rparr>, \<lparr>cat_id = 3, cat_name = ''Home''\<rparr>],
      to_dos = [\<lparr>todo_id = 4, todo_name = ''Write report'', parent_id = Some 2,
                 due_date = Some (2024, 6, 10)\<rparr>,
                \<lparr>todo_id = 5, todo_name = ''Water plants'', parent_id = None,
                 due_date = Some (2024, 6, 12)\<rparr>],
      got_dones = [\<lparr>done_id = 2, done_name = ''Buy milk'', done_category = ''Home'',
                    done_date = Some (2024, 5, 30)\<rparr>],
      users = [\<lparr>user_id = 2, user_parent_id = None, email = ''ann@example.org'',
                password = ''pbkdf2'', user_name = ''Ann''\<rparr>]\<rparr>"

definition ex_get :: request where
  "ex_get = \<lparr>req_method = GET, session_user_id = None, csrf_ok = False, form_name = [],
             form_category = [], form_due_date = None\<rparr>"

definition ex_post :: request where
  "ex_post = \<lparr>req_method = POST, session_user_id = None, csrf_ok = True, form_name = ''Errands'',
              form_category = ''Work'', form_due_date = Some (2024, 6, 10)\<rparr>"

text \<open>
  The example after to-do 4 is completed; and after to-do 5, of the largest id, is
  completed and a new to-do is added.
\<close>

definition ex_completed_4 :: db where
  "ex_completed_4 = snd (mark_done 4 (2024, 6, 10) ex_db)"

definition ex_reused_5 :: db where
  "ex_reused_5 = snd (add_new_to_do (2024, 6, 10) ex_post (snd (mark_done 5 (2024, 6, 10) ex_db)))"

section \<open>Properties\<close>

subsection \<open>Keys and lookups\<close>

lemma fold_max_ge: "(a::nat) \<le> fold max xs a"
  by (induction xs arbitrary: a) (auto intro: order_trans [OF max.cobounded2])

lemma fold_max_mem: "x \<in> set xs \<Longrightarrow> (x::nat) \<le> fold max xs a"
proof (induction xs arbitrary: a)
  case Nil
  then show ?case by simp
next
  case (Cons y ys)
  show ?case
  proof (cases "x = y")
    case True
    have "x \<le> max y a" using True by simp
    also have "\<dots> \<le> fold max ys (max y a)" by (rule fold_max_ge)
    finally show ?thesis by simp
  next
    case False
    with Cons show ?thesis by simp
  qed
qed

lemma next_id_fresh: "next_id ids \<notin> set ids"
proof
  assume "next_id ids \<in> set ids"
  then have "next_id ids \<le> fold max ids 0" by (rule fold_max_mem)
  then show False by (simp add: next_id_def)
qed

lemma find_filter_None: "find (\<lambda>x. f x = i) (filter (\<lambda>x. f x \<noteq> i) xs) = None"
  by (induction xs) auto

lemma find_to_do_session_delete: "find_to_do (session_delete_to_do i d) i = None"
  by (simp add: find_to_do_def session_delete_to_do_def find_filter_None)

lemma get_to_do_Inr: "get_to_do d i = Inr x \<longleftrightarrow> i < 2 ^ 63 \<and> find_to_do d i = x"
  by (simp add: get_to_do_def)

lemma get_to_do_Inl: "get_to_do d i = Inl e \<longleftrightarrow> \<not> i < 2 ^ 63 \<and> e = OverflowError"
  by (auto simp add: get_to_do_def)

lemma get_to_do_session_delete:
  "get_to_do d i = Inr x \<Longrightarrow> get_to_do (session_delete_to_do i d') i = Inr None"
  by (simp add: get_to_do_Inr find_to_do_session_delete)

lemma ex_get_to_do_4:
  "get_to_do ex_db 4 = Inr (Some \<lparr>todo_id = 4, todo_name = ''Write report'', parent_id = Some 2,
                 due_date = Some (2024, 6, 10)\<rparr>)"
  by (simp add: get_to_do_def find_to_do_def ex_db_def)

lemma ex_get_to_do_5:
  "get_to_do ex_db 5 = Inr (Some \<lparr>todo_id = 5, todo_name = ''Water plants'', parent_id = None,
                 due_date = Some (2024, 6, 12)\<rparr>)"
  by (simp add: get_to_do_def find_to_do_def ex_db_def)

lemma ex_get_to_do_9: "get_to_do ex_db 9 = Inr None"
  by (simp add: get_to_do_def find_to_do_def ex_db_def)

subsection \<open>Completing a to-do\<close>

lemma mark_done_Some:
  "get_to_do d i = Inr (Some t) \<Longrightarrow>
   mark_done i today d =
     (plain (Redirect (To_dashboard (Some i))),
      session_delete_to_do i
        (d\<lparr>got_dones := got_dones d @
             [\<lparr>done_id = next_id (map done_id (got_dones d)), done_name = todo_name t,
               done_category = str_category (parent_category d t), done_date = Some today\<rparr>]\<rparr>))"
  by (simp add: mark_done_def)

lemma mark_done_None:
  "get_to_do d i = Inr None \<Longrightarrow> mark_done i today d = (plain (Raised AttributeError), d)"
  by (simp add: mark_done_def)

lemma mark_done_Inl:
  "get_to_do d i = Inl e \<Longrightarrow> mark_done i today d = (plain (Raised e), d)"
  by (simp add: mark_done_def)

text \<open>
  Claim C1. \<^verbatim>\<open>mark_done\<close> on the id of a to-do adds one row to \<^verbatim>\<open>got_dones\<close>, made of
  the to-do's name, the text of its category and today's date, and removes the to-do
  from \<^verbatim>\<open>to_dos\<close>; on any other id it raises and changes nothing. So either both changes
  happen or neither does.
\<close>

theorem mark_done_atomic:
  assumes "mark_done i today d = (r, d')"
  shows "case get_to_do d i of
           Inl e \<Rightarrow> d' = d
         | Inr None \<Rightarrow> d' = d
         | Inr (Some t) \<Rightarrow>
             got_dones d' = got_dones d @
               [\<lparr>done_id = next_id (map done_id (got_dones d)), done_name = todo_name t,
                 done_category = str_category (parent_category d t), done_date = Some today\<rparr>]
             \<and> to_dos d' = filter (\<lambda>x. todo_id x \<noteq> i) (to_dos d)
             \<and> get_to_do d' i = Inr None
             \<and> categories d' = categories d"
proof (cases "get_to_do d i")
  case (Inl e)
  with assms show ?thesis by (simp add: mark_done_Inl)
next
  case (Inr x)
  show ?thesis
  proof (cases x)
    case None
    with Inr assms show ?thesis by (simp add: mark_done_None)
  next
    case (Some t)
    with Inr assms have d': "d' = session_delete_to_do i
        (d\<lparr>got_dones := got_dones d @
             [\<lparr>done_id = next_id (map done_id (got_dones d)), done_name = todo_name t,
               done_category = str_category (parent_category d t), done_date = Some today\<rparr>]\<rparr>)"
      by (simp add: mark_done_Some)
    have "get_to_do d' i = Inr None" unfolding d' using Inr by (rule get_to_do_session_delete)
    with Inr Some show ?thesis by (simp add: d' session_delete_to_do_def)
  qed
qed

theorem mark_done_atomic_witness:
  "got_dones (snd (mark_done 4 (2024, 6, 10) ex_db)) =
     [\<lparr>done_id = 2, done_name = ''Buy milk'', done_category = ''Home'',
       done_date = Some (2024, 5, 30)\<rparr>,
      \<lparr>done_id = 3, done_name = ''Write report'', done_category = ''Work'',
       done_date = Some (2024, 6, 10)\<rparr>]
   \<and> to_dos (snd (mark_done 4 (2024, 6, 10) ex_db)) =
       [\<lparr>todo_id = 5, todo_name = ''Water plants'', parent_id = None,
         due_date = Some (2024, 6, 12)\<rparr>]
   \<and> get_to_do (snd (mark_done 4 (2024, 6, 10) ex_db)) 4 = Inr None
   \<and> snd (mark_done 9 (2024, 6, 10) ex_db) = ex_db"
  using mark_done_atomic [OF surjective_pairing, of 4 "(2024, 6, 10)" ex_db]
    mark_done_atomic [OF surjective_pairing, of 9 "(2024, 6, 10)" ex_db]
  by (simp add: ex_get_to_do_4 ex_get_to_do_9)
     (simp add: ex_db_def parent_category_def get_category_def next_id_def)

text \<open>
  Claim C10. For a to-do with a null \<^verbatim>\<open>parent_id\<close>, \<^verbatim>\<open>mark_done\<close> stores the text
  \<^verbatim>\<open>None\<close> as the category of the new \<^verbatim>\<open>got_dones\<close> row.
\<close>

theorem mark_done_null_category:
  assumes "get_to_do d i = Inr (Some t)" and "parent_id t = None"
  shows "got_dones (snd (mark_done i today d)) = got_dones d @
           [\<lparr>done_id = next_id (map done_id (got_dones d)), done_name = todo_name t,
             done_category = ''None'', done_date = Some today\<rparr>]"
  using assms by (simp add: mark_done_Some session_delete_to_do_def parent_category_def)

theorem mark_done_null_category_witness:
  "got_dones (snd (mark_done 5 (2024, 6, 10) ex_db)) =
     [\<lparr>done_id = 2, done_name = ''Buy milk'', done_category = ''Home'',
       done_date = Some (2024, 5, 30)\<rparr>,
      \<lparr>done_id = 3, done_name = ''Water plants'', done_category = ''None'',
       done_date = Some (2024, 6, 10)\<rparr>]"
  using mark_done_null_category [OF ex_get_to_do_5, of "(2024, 6, 10)"]
  by (simp add: ex_db_def next_id_def)

subsection \<open>Clearing the archive\<close>

lemma fold_session_delete_got_done:
  "fold session_delete_got_done xs d =
     d\<lparr>got_dones := filter (\<lambda>x. done_id x \<notin> done_id ` set xs) (got_dones d)\<rparr>"
proof (induction xs arbitrary: d)
  case Nil
  then show ?case by simp
next
  case (Cons g gs)
  have "filter (\<lambda>x. done_id x \<notin> done_id ` set gs) (filter (\<lambda>x. done_id x \<noteq> done_id g) ys) =
        filter (\<lambda>x. done_id x \<notin> done_id ` set (g # gs)) ys" for ys
    by (induction ys) auto
  with Cons show ?case by (simp add: session_delete_got_done_def)
qed

text \<open>
  Claim C7, as the code has it. \<^verbatim>\<open>clear_got_done\<close> removes every row of \<^verbatim>\<open>got_dones\<close>
  and leaves the to-dos, the categories and the users as they were; the archive page
  that follows lists nothing. Its response is a redirect to that page: it returns no count.
\<close>

theorem clear_got_done_clears:
  "clear_got_done d = (plain (Redirect To_got_done), d\<lparr>got_dones := []\<rparr>)
   \<and> got_dones (snd (clear_got_done d)) = []
   \<and> to_dos (snd (clear_got_done d)) = to_dos d
   \<and> categories (snd (clear_got_done d)) = categories d
   \<and> fst (got_done_view (snd (clear_got_done d))) = plain (Render (Got_done_page []))"
proof -
  have "filter (\<lambda>x. done_id x \<notin> done_id ` set (got_dones d)) (got_dones d) = []"
    by (simp add: filter_empty_conv)
  then have "clear_got_done d = (plain (Redirect To_got_done), d\<lparr>got_dones := []\<rparr>)"
    by (simp add: clear_got_done_def fold_session_delete_got_done)
  then show ?thesis by (simp add: got_done_view_def)
qed

text \<open>
  The response does not tell how many rows were removed: it is the same redirect for an
  archive of one row and for an empty one.
\<close>

theorem clear_got_done_returns_no_count:
  "length (got_dones ex_db) = 1
   \<and> length (got_dones (ex_db\<lparr>got_dones := []\<rparr>)) = 0
   \<and> fst (clear_got_done ex_db) = plain (Redirect To_got_done)
   \<and> fst (clear_got_done (ex_db\<lparr>got_dones := []\<rparr>)) = plain (Redirect To_got_done)"
  by (simp add: clear_got_done_def ex_db_def)

subsection \<open>The login session\<close>

text \<open>
  \<^verbatim>\<open>dashboard\<close> sends a request without a login session to the login page. Every other
  view answers the same with and without one.
\<close>

lemma dashboard_unauthenticated:
  "session_user_id rq = None \<Longrightarrow>
   dashboard rq d = (flash ''You need to login or register to comment.'' (Redirect To_login), d)"
  by (simp add: dashboard_def)

lemma forms_ignore_session:
  "form_errors (rq\<lparr>session_user_id := u\<rparr>) errs = form_errors rq errs"
  "validate_on_submit (rq\<lparr>session_user_id := u\<rparr>) errs = validate_on_submit rq errs"
  "category_form_errors (rq\<lparr>session_user_id := u\<rparr>) = category_form_errors rq"
  "to_do_form_errors cs today (rq\<lparr>session_user_id := u\<rparr>) = to_do_form_errors cs today rq"
  by (simp_all add: form_errors_def validate_on_submit_def category_form_errors_def
        to_do_form_errors_def)

lemma handle_ignores_session:
  "r \<noteq> Dashboard \<Longrightarrow> handle today r (rq\<lparr>session_user_id := u\<rparr>) d = handle today r rq d"
  by (cases r)
     (simp_all add: handle_def add_new_category_def add_new_to_do_def update_to_do_def
        update_category_def forms_ignore_session Let_def
        cong: if_cong option.case_cong sum.case_cong)

text \<open>
  Claim C2 asks that a request without a login session changes nothing and is sent to the
  login page. \<^verbatim>\<open>GET /mark-done/4\<close> without a session archives and removes to-do 4,
  and redirects to the dashboard.
\<close>

theorem unauthenticated_mark_done_mutates:
  "session_user_id ex_get = None
   \<and> handle (2024, 6, 10) (Mark_done 4) ex_get ex_db =
       (plain (Redirect (To_dashboard (Some 4))),
        ex_db\<lparr>to_dos := [\<lparr>todo_id = 5, todo_name = ''Water plants'', parent_id = None,
                           due_date = Some (2024, 6, 12)\<rparr>],
              got_dones := [\<lparr>done_id = 2, done_name = ''Buy milk'', done_category = ''Home'',
                              done_date = Some (2024, 5, 30)\<rparr>,
                            \<lparr>done_id = 3, done_name = ''Write report'', done_category = ''Work'',
                              done_date = Some (2024, 6, 10)\<rparr>]\<rparr>)"
  by (simp add: handle_def ex_get_def mark_done_Some [OF ex_get_to_do_4])
     (simp add: ex_db_def session_delete_to_do_def parent_category_def get_category_def
        next_id_def)

subsection \<open>Deleting a to-do\<close>

lemma delete_to_do_Some:
  "get_to_do d i = Inr (Some t) \<Longrightarrow>
   delete_to_do i d = (plain (Redirect (To_dashboard None)), session_delete_to_do i d)"
  by (simp add: delete_to_do_def)

lemma delete_to_do_None:
  "get_to_do d i = Inr None \<Longrightarrow> delete_to_do i d = (plain (Raised UnmappedInstanceError), d)"
  by (simp add: delete_to_do_def)

lemma delete_to_do_Inl:
  "get_to_do d i = Inl e \<Longrightarrow> delete_to_do i d = (plain (Raised e), d)"
  by (simp add: delete_to_do_def)

text \<open>
  \<^verbatim>\<open>delete_to_do\<close> (\<^verbatim>\<open>/delete-with-sub/<id>\<close>) on the id of a to-do removes it from
  \<^verbatim>\<open>to_dos\<close> and adds nothing to \<^verbatim>\<open>got_dones\<close>; on any other id it raises and changes
  nothing.
\<close>

lemma delete_to_do_hard_delete:
  assumes "delete_to_do i d = (r, d')"
  shows "case get_to_do d i of
           Inl e \<Rightarrow> body r = Raised e \<and> d' = d
         | Inr None \<Rightarrow> body r = Raised UnmappedInstanceError \<and> d' = d
         | Inr (Some t) \<Rightarrow>
             body r = Redirect (To_dashboard None)
             \<and> to_dos d' = filter (\<lambda>x. todo_id x \<noteq> i) (to_dos d)
             \<and> get_to_do d' i = Inr None
             \<and> got_dones d' = got_dones d
             \<and> categories d' = categories d"
proof (cases "get_to_do d i")
  case (Inl e)
  with assms show ?thesis by (auto simp add: delete_to_do_Inl plain_def)
next
  case (Inr x)
  show ?thesis
  proof (cases x)
    case None
    with Inr assms show ?thesis by (auto simp add: delete_to_do_None plain_def)
  next
    case (Some t)
    with Inr assms have d': "d' = session_delete_to_do i d"
      and r: "r = plain (Redirect (To_dashboard None))"
      by (simp_all add: delete_to_do_Some)
    have "get_to_do d' i = Inr None" unfolding d' using Inr by (rule get_to_do_session_delete)
    with Inr Some show ?thesis by (simp add: d' r session_delete_to_do_def plain_def)
  qed
qed

text \<open>
  \<^verbatim>\<open>delete\<close> (\<^verbatim>\<open>/delete/<id>\<close>) reads the attribute \<^verbatim>\<open>subtasks\<close>, which no to-do has,
  before it deletes: it raises for every id and deletes nothing.
\<close>

lemma delete_raises:
  "delete i d = (plain (Raised (if i < 2 ^ 63 then AttributeError else OverflowError)), d)"
  by (simp add: delete_def get_to_do_def subtasks_def split: option.split)

text \<open>
  Claim C8 asks that deleting an existing to-do removes it from \<^verbatim>\<open>to_dos\<close>.
  \<^verbatim>\<open>GET /delete/4\<close>, where to-do 4 exists, raises \<^verbatim>\<open>AttributeError\<close> and leaves to-do 4
  where it was; the view beside it, \<^verbatim>\<open>delete_to_do\<close>, removes it.
\<close>

theorem delete_leaves_existing_to_do:
  "get_to_do ex_db 4 =
     Inr (Some \<lparr>todo_id = 4, todo_name = ''Write report'', parent_id = Some 2,
                due_date = Some (2024, 6, 10)\<rparr>)
   \<and> delete 4 ex_db = (plain (Raised AttributeError), ex_db)
   \<and> get_to_do (snd (delete 4 ex_db)) 4 =
       Inr (Some \<lparr>todo_id = 4, todo_name = ''Write report'', parent_id = Some 2,
                  due_date = Some (2024, 6, 10)\<rparr>)
   \<and> get_to_do (snd (delete_to_do 4 ex_db)) 4 = Inr None"
  by (simp add: delete_raises delete_to_do_Some [OF ex_get_to_do_4]
        get_to_do_session_delete [OF ex_get_to_do_4] ex_get_to_do_4)

subsection \<open>Ids that name no to-do\<close>

lemma update_to_do_None:
  "get_to_do d i = Inr None \<Longrightarrow> update_to_do i today rq d = (plain (Raised AttributeError), d)"
  by (simp add: update_to_do_def)

lemma update_to_do_Inl:
  "get_to_do d i = Inl e \<Longrightarrow> update_to_do i today rq d = (plain (Raised e), d)"
  by (simp add: update_to_do_def)

lemma find_to_do_None_iff: "find_to_do d i = None \<longleftrightarrow> i \<notin> todo_id ` set (to_dos d)"
  by (auto simp add: find_to_do_def find_None_iff)

text \<open>No view but \<^verbatim>\<open>add_new_to_do\<close> brings a new id into \<^verbatim>\<open>to_dos\<close>.\<close>

lemma update_to_do_ids:
  "todo_id ` set (to_dos (snd (update_to_do j today rq d))) \<subseteq> todo_id ` set (to_dos d)"
  by (auto simp add: update_to_do_def Let_def subtasks_def split: sum.splits option.splits
        if_splits)

lemma handle_to_do_ids:
  assumes "r \<noteq> Add_new_to_do"
  shows "todo_id ` set (to_dos (snd (handle today r rq d))) \<subseteq> todo_id ` set (to_dos d)"
proof (cases "req_method rq = POST \<and> \<not> allows_post r")
  case True
  then show ?thesis by (simp add: handle_def)
next
  case False
  then have h: "handle today r rq d = view today r rq d" by (auto simp add: handle_def)
  have "todo_id ` set (to_dos (snd (view today r rq d))) \<subseteq> todo_id ` set (to_dos d)"
    using assms
  proof (cases r)
    case (Update_to_do j)
    then show ?thesis by (simp add: update_to_do_ids)
  next
    case (Mark_done j)
    then show ?thesis
      by (auto simp add: mark_done_def session_delete_to_do_def
            split: sum.splits option.splits)
  next
    case (Delete_with_sub j)
    then show ?thesis
      by (auto simp add: delete_to_do_def session_delete_to_do_def
            split: sum.splits option.splits)
  next
    case Clear_got_done
    then show ?thesis by (simp add: clear_got_done_def fold_session_delete_got_done)
  qed (simp_all add: dashboard_def add_new_category_def show_category_def all_categories_def
         all_to_dos_def show_to_do_def delete_raises update_category_def got_done_view_def
         Let_def split: option.splits sum.splits)
  with h show ?thesis by simp
qed

lemma run_requests_no_to_do:
  "\<forall>s \<in> set steps. fst (snd s) \<noteq> Add_new_to_do \<Longrightarrow> find_to_do d i = None \<Longrightarrow>
   find_to_do (run_requests steps d) i = None"
  unfolding run_requests_def
proof (induction steps arbitrary: d)
  case Nil
  then show ?case by simp
next
  case (Cons s steps)
  obtain today r rq where s: "s = (today, r, rq)" by (cases s)
  with Cons.prems have "r \<noteq> Add_new_to_do" by simp
  then have "todo_id ` set (to_dos (snd (handle today r rq d))) \<subseteq> todo_id ` set (to_dos d)"
    by (rule handle_to_do_ids)
  with Cons.prems(2) have "find_to_do (snd (handle today r rq d)) i = None"
    by (auto simp add: find_to_do_None_iff)
  with Cons.IH [of "snd (handle today r rq d)"] Cons.prems(1) show ?case by (simp add: s)
qed

text \<open>
  \<^verbatim>\<open>add_new_to_do\<close> stores at most one row, made of the fields of its form, under the
  largest id in use plus one.
\<close>

lemma find_append_one:
  "find P (xs @ [y]) = (case find P xs of None \<Rightarrow> if P y then Some y else None | Some x \<Rightarrow> Some x)"
  by (induction xs) auto

lemma add_new_to_do_reuse:
  assumes "find_to_do d i = None"
  shows "find_to_do (snd (add_new_to_do today rq d)) i = None
         \<or> find_to_do (snd (add_new_to_do today rq d)) i =
             Some \<lparr>todo_id = i, todo_name = form_name rq,
                   parent_id = map_option cat_id (category_by_name d (form_category rq)),
                   due_date = form_due_date rq\<rparr>
           \<and> i = next_id (map todo_id (to_dos d))"
  using assms by (auto simp add: add_new_to_do_def Let_def find_to_do_def find_append_one)

text \<open>The two examples.\<close>

lemma ex_completed_4_to_dos:
  "to_dos ex_completed_4 =
     [\<lparr>todo_id = 5, todo_name = ''Water plants'', parent_id = None,
       due_date = Some (2024, 6, 12)\<rparr>]"
  by (simp add: ex_completed_4_def mark_done_Some [OF ex_get_to_do_4] session_delete_to_do_def)
     (simp add: ex_db_def)

lemma ex_post_valid:
  "categories d = categories ex_db \<Longrightarrow>
   validate_on_submit (ex_post\<lparr>form_name := n\<rparr>)
     (to_do_form_errors (categories d) (2024, 6, 10) (ex_post\<lparr>form_name := n\<rparr>))
     = data_required n"
  by (simp add: validate_on_submit_def form_errors_def to_do_form_errors_def
        string_field_errors_def select_field_errors_def date_field_errors_def date_check_def
        ex_post_def ex_db_def data_required_def py_isspace_def)

lemma ex_reused_5_to_dos:
  "to_dos ex_reused_5 =
     [\<lparr>todo_id = 4, todo_name = ''Write report'', parent_id = Some 2,
       due_date = Some (2024, 6, 10)\<rparr>,
      \<lparr>todo_id = 5, todo_name = ''Errands'', parent_id = Some 2,
       due_date = Some (2024, 6, 10)\<rparr>]"
proof -
  have 1: "snd (mark_done 5 (2024, 6, 10) ex_db) =
      ex_db\<lparr>to_dos := [\<lparr>todo_id = 4, todo_name = ''Write report'', parent_id = Some 2,
                          due_date = Some (2024, 6, 10)\<rparr>],
            got_dones := got_dones ex_db @
              [\<lparr>done_id = 3, done_name = ''Water plants'', done_category = ''None'',
                done_date = Some (2024, 6, 10)\<rparr>]\<rparr>"
    by (simp add: mark_done_Some [OF ex_get_to_do_5] session_delete_to_do_def
          parent_category_def)
       (simp add: ex_db_def next_id_def)
  have v: "validate_on_submit ex_post
     (to_do_form_errors (categories ex_db) (2024, 6, 10) ex_post)"
    using ex_post_valid [of ex_db "''Errands''"]
    by (simp add: ex_post_def data_required_def py_isspace_def)
  show ?thesis
    by (simp add: ex_reused_5_def 1 add_new_to_do_def v)
       (simp add: ex_post_def ex_db_def next_id_def category_by_name_def)
qed

text \<open>
  Claim C5, as the code has it. An id that names no to-do, as is every id below \<open>2 ^ 63\<close>
  once \<^verbatim>\<open>mark_done\<close> or \<^verbatim>\<open>delete_to_do\<close> has run on it, makes \<^verbatim>\<open>update_to_do\<close> and
  \<^verbatim>\<open>mark_done\<close> raise, \<^verbatim>\<open>AttributeError\<close> or, from \<open>2 ^ 63\<close> on, \<^verbatim>\<open>OverflowError\<close>: a
  server error, with nothing changed. The id names no to-do after any requests that do
  not add a to-do; and \<^verbatim>\<open>add_new_to_do\<close> either leaves it so, or stores under it the new
  to-do of its form, when the id is the largest id in use plus one.
\<close>

theorem no_live_to_do_raises:
  assumes "find_to_do d i = None
           \<or> i < 2 ^ 63 \<and> (d = snd (mark_done i day d0) \<or> d = snd (delete_to_do i d0))"
  shows "find_to_do d i = None
         \<and> update_to_do i today rq d =
             (plain (Raised (if i < 2 ^ 63 then AttributeError else OverflowError)), d)
         \<and> mark_done i today d =
             (plain (Raised (if i < 2 ^ 63 then AttributeError else OverflowError)), d)
         \<and> ((\<forall>s \<in> set steps. fst (snd s) \<noteq> Add_new_to_do) \<longrightarrow>
              find_to_do (run_requests steps d) i = None)
         \<and> (find_to_do (snd (add_new_to_do today rq d)) i = None
            \<or> find_to_do (snd (add_new_to_do today rq d)) i =
                Some \<lparr>todo_id = i, todo_name = form_name rq,
                      parent_id = map_option cat_id (category_by_name d (form_category rq)),
                      due_date = form_due_date rq\<rparr>
              \<and> i = next_id (map todo_id (to_dos d)))"
proof -
  have completed: "find_to_do (snd (mark_done i day d0)) i = None" if "i < 2 ^ 63"
  proof (cases "find_to_do d0 i")
    case None
    with that show ?thesis by (simp add: mark_done_None get_to_do_Inr)
  next
    case (Some t)
    with that show ?thesis
      by (simp add: mark_done_Some get_to_do_Inr find_to_do_session_delete)
  qed
  have deleted: "find_to_do (snd (delete_to_do i d0)) i = None" if "i < 2 ^ 63"
  proof (cases "find_to_do d0 i")
    case None
    with that show ?thesis by (simp add: delete_to_do_None get_to_do_Inr)
  next
    case (Some t)
    with that show ?thesis
      by (simp add: delete_to_do_Some get_to_do_Inr find_to_do_session_delete)
  qed
  from assms completed deleted have none: "find_to_do d i = None" by auto
  have raises: "update_to_do i today rq d =
             (plain (Raised (if i < 2 ^ 63 then AttributeError else OverflowError)), d)"
    "mark_done i today d =
             (plain (Raised (if i < 2 ^ 63 then AttributeError else OverflowError)), d)"
    using none
    by (simp_all add: update_to_do_None update_to_do_Inl mark_done_None mark_done_Inl
          get_to_do_Inr get_to_do_Inl)
  from none raises run_requests_no_to_do [of steps d i] add_new_to_do_reuse [OF none, of today rq]
  show ?thesis by blast
qed

theorem no_live_to_do_raises_witness:
  "find_to_do ex_completed_4 4 = None
   \<and> update_to_do 4 (2024, 6, 11) ex_post ex_completed_4 =
       (plain (Raised AttributeError), ex_completed_4)
   \<and> mark_done 4 (2024, 6, 11) ex_completed_4 = (plain (Raised AttributeError), ex_completed_4)
   \<and> find_to_do
        (run_requests
           [((2024, 6, 11), Update_to_do 5, ex_post), ((2024, 6, 11), Add_new_category, ex_post),
            ((2024, 6, 12), Mark_done 5, ex_get), ((2024, 6, 12), Clear_got_done, ex_get)]
           ex_completed_4) 4 = None
   \<and> find_to_do (snd (add_new_to_do (2024, 6, 11) ex_post ex_completed_4)) 4 = None"
proof -
  have h: "find_to_do ex_completed_4 4 = None
           \<or> (4::nat) < 2 ^ 63 \<and> (ex_completed_4 = snd (mark_done 4 (2024, 6, 10) ex_db)
                \<or> ex_completed_4 = snd (delete_to_do 4 ex_db))"
    by (simp add: ex_completed_4_def)
  have steps: "\<forall>s \<in> set [((2024, 6, 11), Update_to_do 5, ex_post),
                  ((2024, 6, 11), Add_new_category, ex_post),
                  ((2024, 6, 12), Mark_done 5, ex_get), ((2024, 6, 12), Clear_got_done, ex_get)].
                fst (snd s) \<noteq> Add_new_to_do"
    by simp
  have next_is_6: "(4::nat) \<noteq> next_id (map todo_id (to_dos ex_completed_4))"
    by (simp add: ex_completed_4_to_dos next_id_def)
  note t = no_live_to_do_raises [OF h, of "(2024, 6, 11)" ex_post
      "[((2024, 6, 11), Update_to_do 5, ex_post), ((2024, 6, 11), Add_new_category, ex_post),
        ((2024, 6, 12), Mark_done 5, ex_get), ((2024, 6, 12), Clear_got_done, ex_get)]"]
  from t have a: "find_to_do ex_completed_4 4 = None
      \<and> update_to_do 4 (2024, 6, 11) ex_post ex_completed_4 =
          (plain (Raised AttributeError), ex_completed_4)
      \<and> mark_done 4 (2024, 6, 11) ex_completed_4 =
          (plain (Raised AttributeError), ex_completed_4)"
    by simp
  from t steps have b: "find_to_do
        (run_requests
           [((2024, 6, 11), Update_to_do 5, ex_post), ((2024, 6, 11), Add_new_category, ex_post),
            ((2024, 6, 12), Mark_done 5, ex_get), ((2024, 6, 12), Clear_got_done, ex_get)]
           ex_completed_4) 4 = None"
    by blast
  from t next_is_6
  have c: "find_to_do (snd (add_new_to_do (2024, 6, 11) ex_post ex_completed_4)) 4 = None"
    by blast
  from a b c show ?thesis by blast
qed

text \<open>
  On the id of a completed to-do, \<^verbatim>\<open>mark_done\<close> and \<^verbatim>\<open>update_to_do\<close> do not answer
  \<^verbatim>\<open>404 Not Found\<close>: they raise. Nor does the id stay without a to-do: with to-do 5, of
  the largest id, completed, the next new to-do is given the id 5, and \<^verbatim>\<open>update_to_do\<close> on
  5 then changes that to-do.
\<close>

theorem completed_id_raises_or_is_reused:
  "body (fst (mark_done 4 (2024, 6, 11) ex_completed_4)) = Raised AttributeError
   \<and> body (fst (update_to_do 4 (2024, 6, 11) ex_post ex_completed_4)) = Raised AttributeError
   \<and> body (fst (mark_done 4 (2024, 6, 11) ex_completed_4)) \<noteq> NotFound
   \<and> body (fst (update_to_do 4 (2024, 6, 11) ex_post ex_completed_4)) \<noteq> NotFound
   \<and> find_to_do (snd (mark_done 5 (2024, 6, 10) ex_db)) 5 = None
   \<and> find_to_do ex_reused_5 5 =
       Some \<lparr>todo_id = 5, todo_name = ''Errands'', parent_id = Some 2,
             due_date = Some (2024, 6, 10)\<rparr>
   \<and> find_to_do
        (snd (update_to_do 5 (2024, 6, 10) (ex_post\<lparr>form_name := ''Changed''\<rparr>) ex_reused_5)) 5 =
       Some \<lparr>todo_id = 5, todo_name = ''Changed'', parent_id = Some 2,
             due_date = Some (2024, 6, 10)\<rparr>"
proof -
  have none: "get_to_do ex_completed_4 4 = Inr None"
    unfolding ex_completed_4_def mark_done_Some [OF ex_get_to_do_4] snd_conv
    using ex_get_to_do_4 by (rule get_to_do_session_delete)
  have gone: "find_to_do (snd (mark_done 5 (2024, 6, 10) ex_db)) 5 = None"
    by (simp add: mark_done_Some [OF ex_get_to_do_5] find_to_do_session_delete)
  have live: "get_to_do ex_reused_5 5 =
       Inr (Some \<lparr>todo_id = 5, todo_name = ''Errands'', parent_id = Some 2,
             due_date = Some (2024, 6, 10)\<rparr>)"
    by (simp add: get_to_do_def find_to_do_def ex_reused_5_to_dos)
  have cats: "categories ex_reused_5 = categories ex_db"
    by (simp add: ex_reused_5_def add_new_to_do_def Let_def mark_done_Some [OF ex_get_to_do_5]
          session_delete_to_do_def)
  have v: "validate_on_submit (ex_post\<lparr>form_name := ''Changed''\<rparr>)
     (to_do_form_errors (categories ex_reused_5) (2024, 6, 10) (ex_post\<lparr>form_name := ''Changed''\<rparr>))"
    using ex_post_valid [OF cats, of "''Changed''"]
    by (simp add: data_required_def py_isspace_def)
  have changed: "find_to_do
        (snd (update_to_do 5 (2024, 6, 10) (ex_post\<lparr>form_name := ''Changed''\<rparr>) ex_reused_5)) 5 =
       Some \<lparr>todo_id = 5, todo_name = ''Changed'', parent_id = Some 2,
             due_date = Some (2024, 6, 10)\<rparr>"
    by (simp add: update_to_do_def live v subtasks_def find_to_do_def ex_reused_5_to_dos)
       (simp add: ex_post_def category_by_name_def cats ex_db_def)
  from none gone live changed show ?thesis
    by (simp add: mark_done_None update_to_do_None plain_def get_to_do_Inr)
qed

subsection \<open>Creating and renaming a category\<close>

lemma find_Some_mem: "find P xs = Some x \<Longrightarrow> x \<in> set xs \<and> P x"
  by (induction xs) (auto split: if_splits)

lemma filter_distinct_key:
  "distinct (map f xs) \<Longrightarrow> find (\<lambda>x. f x = k) xs = Some c \<Longrightarrow> filter (\<lambda>x. f x = k) xs = [c]"
proof (induction xs)
  case Nil
  then show ?case by simp
next
  case (Cons y ys)
  show ?case
  proof (cases "f y = k")
    case True
    with Cons.prems have "c = y" and "k \<notin> f ` set ys" by auto
    then have "filter (\<lambda>x. f x = k) ys = []" by (auto simp add: filter_empty_conv)
    with True \<open>c = y\<close> show ?thesis by simp
  next
    case False
    with Cons show ?thesis by simp
  qed
qed

lemma validate_category_form:
  "req_method rq = POST \<Longrightarrow> csrf_ok rq \<Longrightarrow> data_required (form_name rq) \<Longrightarrow>
   validate_on_submit rq (category_form_errors rq)"
  by (simp add: validate_on_submit_def form_errors_def category_form_errors_def
        string_field_errors_def)

text \<open>
  Claim C3. When a category has the submitted name already, \<^verbatim>\<open>add_new_category\<close> flashes
  that the category exists and leaves the database as it was; with the names of the table
  unique, the only row of that name afterwards is the row that was there before.
\<close>

theorem add_new_category_duplicate:
  assumes "req_method rq = POST" and "csrf_ok rq" and "data_required (form_name rq)"
    and "category_by_name d (form_name rq) = Some c"
  shows "add_new_category rq d =
           (flash ''This Category already exists!''
              (Redirect (To_show_category (form_name rq))), d)
         \<and> (distinct (map cat_name (categories d)) \<longrightarrow>
              filter (\<lambda>x. cat_name x = form_name rq) (categories (snd (add_new_category rq d)))
                = [c])"
proof -
  have "c \<in> set (categories d) \<and> cat_name c = form_name rq"
    using assms(4) unfolding category_by_name_def by (rule find_Some_mem)
  then have "form_name rq \<in> cat_name ` set (categories d)" by force
  with assms(1-3) have dup: "add_new_category rq d =
           (flash ''This Category already exists!''
              (Redirect (To_show_category (form_name rq))), d)"
    by (simp add: add_new_category_def validate_category_form)
  have "filter (\<lambda>x. cat_name x = form_name rq) (categories d) = [c]"
    if "distinct (map cat_name (categories d))"
    using that assms(4) unfolding category_by_name_def by (rule filter_distinct_key)
  with dup show ?thesis by simp
qed

theorem add_new_category_duplicate_witness:
  "add_new_category (ex_post\<lparr>form_name := ''Work''\<rparr>) ex_db =
     (flash ''This Category already exists!'' (Redirect (To_show_category ''Work'')), ex_db)
   \<and> filter (\<lambda>x. cat_name x = ''Work'')
        (categories (snd (add_new_category (ex_post\<lparr>form_name := ''Work''\<rparr>) ex_db)))
       = [\<lparr>cat_id = 2, cat_name = ''Work''\<rparr>]"
proof -
  have 1: "req_method (ex_post\<lparr>form_name := ''Work''\<rparr>) = POST"
    and 2: "csrf_ok (ex_post\<lparr>form_name := ''Work''\<rparr>)"
    and 3: "data_required (form_name (ex_post\<lparr>form_name := ''Work''\<rparr>))"
    and 4: "category_by_name ex_db (form_name (ex_post\<lparr>form_name := ''Work''\<rparr>)) =
              Some \<lparr>cat_id = 2, cat_name = ''Work''\<rparr>"
    and 5: "distinct (map cat_name (categories ex_db))"
    by (simp_all add: ex_post_def ex_db_def data_required_def py_isspace_def
          category_by_name_def)
  have n: "form_name (ex_post\<lparr>form_name := ''Work''\<rparr>) = ''Work''" by simp
  from add_new_category_duplicate [OF 1 2 3 4, unfolded n] 5 show ?thesis by blast
qed

lemma find_append_fresh:
  "i \<notin> f ` set xs \<Longrightarrow> f y = i \<Longrightarrow> find (\<lambda>x. f x = i) (xs @ [y]) = Some y"
  by (induction xs) auto

lemma map_update_fresh:
  "i \<notin> f ` set xs \<Longrightarrow> map (\<lambda>x. if f x = i then g x else x) xs = xs"
  by (induction xs) auto

lemma rename_keeps_names_distinct:
  "distinct (map cat_id xs) \<Longrightarrow> distinct (map cat_name xs) \<Longrightarrow>
   filter (\<lambda>x. cat_id x \<noteq> i \<and> cat_name x = n) xs = [] \<Longrightarrow>
   distinct (map cat_name (map (\<lambda>x. if cat_id x = i then x\<lparr>cat_name := n\<rparr> else x) xs))"
proof (induction xs)
  case Nil
  then show ?case by simp
next
  case (Cons y ys)
  then have IH:
    "distinct (map cat_name (map (\<lambda>x. if cat_id x = i then x\<lparr>cat_name := n\<rparr> else x) ys))"
    by (simp split: if_splits)
  show ?case
  proof (cases "cat_id y = i")
    case True
    with Cons.prems have "i \<notin> cat_id ` set ys" by auto
    then have same: "map (\<lambda>x. if cat_id x = i then x\<lparr>cat_name := n\<rparr> else x) ys = ys"
      by (rule map_update_fresh)
    have "n \<notin> cat_name ` set ys"
    proof
      assume "n \<in> cat_name ` set ys"
      then obtain x where x: "x \<in> set ys" "cat_name x = n" by auto
      with \<open>i \<notin> cat_id ` set ys\<close> have "cat_id x \<noteq> i" by auto
      with x have "x \<in> set (filter (\<lambda>x. cat_id x \<noteq> i \<and> cat_name x = n) (y # ys))" by simp
      with Cons.prems(3) show False by simp
    qed
    with True same Cons.prems(2) show ?thesis by simp
  next
    case False
    with Cons.prems(3) have "cat_name y \<noteq> n" by (auto split: if_splits)
    with False Cons.prems(2) IH show ?thesis by (auto split: if_splits)
  qed
qed

lemma rename_keeps_ids:
  "map cat_id (map (\<lambda>x. if cat_id x = i then x\<lparr>cat_name := n\<rparr> else x) xs) = map cat_id xs"
  by (induction xs) auto

text \<open>The two views that write \<^verbatim>\<open>categories\<close> keep its ids and its names unique.\<close>

lemma add_new_category_unique:
  "unique_categories d \<Longrightarrow> unique_categories (snd (add_new_category rq d))"
  using next_id_fresh [of "map cat_id (categories d)"]
  by (simp add: add_new_category_def unique_categories_def Let_def)

lemma update_category_unique:
  "unique_categories d \<Longrightarrow> unique_categories (snd (update_category i rq d))"
  by (simp add: update_category_def unique_categories_def Let_def rename_keeps_ids
        rename_keeps_names_distinct del: map_map split: option.split)

lemma ex_db_unique: "unique_categories ex_db"
  by (simp add: unique_categories_def ex_db_def)

text \<open>
  Claim C9. From a database with no category named \<open>X\<close> or \<open>Y\<close>, creating the category
  \<open>X\<close> and renaming it, by the id it was given, to \<open>Y\<close> leaves the list of all categories
  with one more row: the one row of that id, the one row named \<open>Y\<close>, and no row named \<open>X\<close>.
\<close>

theorem create_then_rename:
  assumes "req_method rq1 = POST" and "csrf_ok rq1" and "form_name rq1 = X"
    and "req_method rq2 = POST" and "csrf_ok rq2" and "form_name rq2 = Y"
    and "data_required X" and "data_required Y" and "X \<noteq> Y"
    and "X \<notin> cat_name ` set (categories d)" and "Y \<notin> cat_name ` set (categories d)"
    and "new_id = next_id (map cat_id (categories d))"
    and "d1 = snd (add_new_category rq1 d)"
    and "d2 = snd (update_category new_id rq2 d1)"
  shows "fst (show_category X d1) =
           plain (Render (Show_category_page \<lparr>cat_id = new_id, cat_name = X\<rparr>))
         \<and> fst (all_categories d2) =
             plain (Render (All_categories_page
                      (categories d @ [\<lparr>cat_id = new_id, cat_name = Y\<rparr>])))
         \<and> filter (\<lambda>x. cat_id x = new_id) (categories d2) = [\<lparr>cat_id = new_id, cat_name = Y\<rparr>]
         \<and> filter (\<lambda>x. cat_name x = Y) (categories d2) = [\<lparr>cat_id = new_id, cat_name = Y\<rparr>]
         \<and> filter (\<lambda>x. cat_name x = X) (categories d2) = []"
proof -
  let ?new = "\<lparr>cat_id = new_id, cat_name = X\<rparr>"
  have fresh: "new_id \<notin> cat_id ` set (categories d)"
    using next_id_fresh [of "map cat_id (categories d)"] assms(12) by simp
  have d1: "d1 = d\<lparr>categories := categories d @ [?new]\<rparr>"
    using assms(1-3,7,10,12,13) by (simp add: add_new_category_def validate_category_form)
  have shown: "category_by_name d1 X = Some ?new"
    using assms(10) by (simp add: d1 category_by_name_def find_append_fresh)
  have got: "get_category d1 new_id = Some ?new"
    using fresh by (simp add: d1 get_category_def find_append_fresh)
  have no_other: "filter (\<lambda>x. cat_id x \<noteq> new_id \<and> cat_name x = Y) (categories d1) = []"
    using assms(11) by (auto simp add: d1 filter_empty_conv)
  have valid: "validate_on_submit rq2 (category_form_errors rq2)"
    using assms(4-6,8) by (simp add: validate_category_form)
  have "d2 = d1\<lparr>categories :=
                 map (\<lambda>x. if cat_id x = new_id then x\<lparr>cat_name := Y\<rparr> else x) (categories d1)\<rparr>"
    using got no_other valid assms(6,14) by (simp add: update_category_def)
  then have d2: "categories d2 = categories d @ [\<lparr>cat_id = new_id, cat_name = Y\<rparr>]"
    using fresh by (simp add: d1 map_update_fresh)
  have "filter (\<lambda>x. cat_id x = new_id) (categories d) = []"
    and "filter (\<lambda>x. cat_name x = Y) (categories d) = []"
    and "filter (\<lambda>x. cat_name x = X) (categories d) = []"
    using fresh assms(10,11) by (auto simp add: filter_empty_conv)
  with d2 shown assms(9) show ?thesis
    by (simp add: show_category_def all_categories_def)
qed


theorem create_then_rename_witness:
  "fst (all_categories
          (snd (update_category 4 (ex_post\<lparr>form_name := ''Chores''\<rparr>)
                  (snd (add_new_category ex_post ex_db))))) =
     plain (Render (All_categories_page
       [\<lparr>cat_id = 2, cat_name = ''Work''\<rparr>, \<lparr>cat_id = 3, cat_name = ''Home''\<rparr>,
        \<lparr>cat_id = 4, cat_name = ''Chores''\<rparr>]))"
proof -
  have rq1: "req_method ex_post = POST" "csrf_ok ex_post" "form_name ex_post = ''Errands''"
    by (simp_all add: ex_post_def)
  have rq2: "req_method (ex_post\<lparr>form_name := ''Chores''\<rparr>) = POST"
    "csrf_ok (ex_post\<lparr>form_name := ''Chores''\<rparr>)"
    "form_name (ex_post\<lparr>form_name := ''Chores''\<rparr>) = ''Chores''"
    by (simp_all add: ex_post_def)
  have names: "data_required ''Errands''" "data_required ''Chores''" "''Errands'' \<noteq> ''Chores''"
    "''Errands'' \<notin> cat_name ` set (categories ex_db)"
    "''Chores'' \<notin> cat_name ` set (categories ex_db)"
    by (simp_all add: data_required_def py_isspace_def ex_db_def)
  have new: "4 = next_id (map cat_id (categories ex_db))"
    by (simp add: next_id_def ex_db_def)
  from create_then_rename [OF rq1 rq2 names new refl refl]
  have "fst (all_categories
          (snd (update_category 4 (ex_post\<lparr>form_name := ''Chores''\<rparr>)
                  (snd (add_new_category ex_post ex_db))))) =
     plain (Render (All_categories_page
       (categories ex_db @ [\<lparr>cat_id = 4, cat_name = ''Chores''\<rparr>])))"
    by blast
  then show ?thesis by (simp add: ex_db_def)
qed

subsection \<open>The due date of a new to-do\<close>

lemma date_check_past:
  "due < today \<Longrightarrow>
   date_field_errors today (Some due) = [ValidationError ''Due Date can't be in the past!'']"
  by (simp add: date_field_errors_def date_check_def)

lemma date_check_not_past: "today \<le> due \<Longrightarrow> date_field_errors today (Some due) = []"
  by (simp add: date_field_errors_def date_check_def not_less)

text \<open>
  Claim C6. A submitted \<^verbatim>\<open>ToDoForm\<close> whose due date is before today's date stores nothing
  and shows the \<^verbatim>\<open>ValidationError\<close> of \<^verbatim>\<open>date_check\<close>, whatever the other fields hold. With
  a due date of today or later, and a name and an existing category in the other fields,
  it stores the new to-do under that category.
\<close>

theorem add_new_to_do_date_check:
  assumes "req_method rq = POST" and "form_due_date rq = Some due"
  shows "(due < today \<longrightarrow>
            snd (add_new_to_do today rq d) = d
            \<and> (\<exists>errs. fst (add_new_to_do today rq d) = plain (Render (Add_new_to_do_page errs))
                 \<and> ValidationError ''Due Date can't be in the past!'' \<in> set errs))
         \<and> (today \<le> due \<and> csrf_ok rq \<and> data_required (form_name rq)
              \<and> data_required (form_category rq)
              \<and> category_by_name d (form_category rq) = Some c \<longrightarrow>
            add_new_to_do today rq d =
              (plain (Redirect (To_show_to_do (next_id (map todo_id (to_dos d))))),
               d\<lparr>to_dos := to_dos d @
                    [\<lparr>todo_id = next_id (map todo_id (to_dos d)), todo_name = form_name rq,
                      parent_id = Some (cat_id c), due_date = Some due\<rparr>]\<rparr>))"
proof (intro conjI impI)
  let ?errs = "to_do_form_errors (categories d) today rq"
  assume past: "due < today"
  then have mem: "ValidationError ''Due Date can't be in the past!'' \<in> set (form_errors rq ?errs)"
    using assms by (simp add: form_errors_def to_do_form_errors_def date_check_past)
  then have invalid: "\<not> validate_on_submit rq ?errs"
    by (auto simp add: validate_on_submit_def)
  then show "snd (add_new_to_do today rq d) = d"
    by (simp add: add_new_to_do_def)
  from invalid have "fst (add_new_to_do today rq d) =
      plain (Render (Add_new_to_do_page (form_errors rq ?errs)))"
    by (simp add: add_new_to_do_def)
  with mem show "\<exists>errs. fst (add_new_to_do today rq d) = plain (Render (Add_new_to_do_page errs))
                 \<and> ValidationError ''Due Date can't be in the past!'' \<in> set errs"
    by blast
next
  assume ok: "today \<le> due \<and> csrf_ok rq \<and> data_required (form_name rq)
              \<and> data_required (form_category rq)
              \<and> category_by_name d (form_category rq) = Some c"
  then have "c \<in> set (categories d) \<and> cat_name c = form_category rq"
    unfolding category_by_name_def by (blast dest: find_Some_mem)
  then have choice: "form_category rq \<in> cat_name ` set (categories d)" by force
  have "to_do_form_errors (categories d) today rq = []"
    using ok choice assms
    by (simp add: to_do_form_errors_def string_field_errors_def select_field_errors_def
          date_check_not_past)
  then have "validate_on_submit rq (to_do_form_errors (categories d) today rq)"
    using ok assms by (simp add: validate_on_submit_def form_errors_def)
  then show "add_new_to_do today rq d =
              (plain (Redirect (To_show_to_do (next_id (map todo_id (to_dos d))))),
               d\<lparr>to_dos := to_dos d @
                    [\<lparr>todo_id = next_id (map todo_id (to_dos d)), todo_name = form_name rq,
                      parent_id = Some (cat_id c), due_date = Some due\<rparr>]\<rparr>)"
    using ok assms by (simp add: add_new_to_do_def)
qed

theorem add_new_to_do_date_check_witness:
  "snd (add_new_to_do (2024, 6, 11) ex_post ex_db) = ex_db
   \<and> add_new_to_do (2024, 6, 10) ex_post ex_db =
       (plain (Redirect (To_show_to_do 6)),
        ex_db\<lparr>to_dos := to_dos ex_db @
                 [\<lparr>todo_id = 6, todo_name = ''Errands'', parent_id = Some 2,
                   due_date = Some (2024, 6, 10)\<rparr>]\<rparr>)"
proof -
  have rq: "req_method ex_post = POST" "form_due_date ex_post = Some (2024, 6, 10)"
    by (simp_all add: ex_post_def)
  have past: "((2024, 6, 10) :: date) < (2024, 6, 11)" by simp
  have ok: "((2024, 6, 10) :: date) \<le> (2024, 6, 10) \<and> csrf_ok ex_post
      \<and> data_required (form_name ex_post) \<and> data_required (form_category ex_post)
      \<and> category_by_name ex_db (form_category ex_post) = Some \<lparr>cat_id = 2, cat_name = ''Work''\<rparr>"
    by (simp add: ex_post_def data_required_def py_isspace_def category_by_name_def ex_db_def)
  have ids: "next_id (map todo_id (to_dos ex_db)) = 6" "form_name ex_post = ''Errands''"
    by (simp_all add: next_id_def ex_db_def ex_post_def)
  from add_new_to_do_date_check [OF rq, of "(2024, 6, 11)" ex_db] past
  have 1: "snd (add_new_to_do (2024, 6, 11) ex_post ex_db) = ex_db" by blast
  from add_new_to_do_date_check [OF rq, of "(2024, 6, 10)" ex_db] ok
  have 2: "add_new_to_do (2024, 6, 10) ex_post ex_db =
       (plain (Redirect (To_show_to_do (next_id (map todo_id (to_dos ex_db))))),
        ex_db\<lparr>to_dos := to_dos ex_db @
                 [\<lparr>todo_id = next_id (map todo_id (to_dos ex_db)),
                   todo_name = form_name ex_post,
                   parent_id = Some (cat_id \<lparr>cat_id = 2, cat_name = ''Work''\<rparr>),
                   due_date = Some (2024, 6, 10)\<rparr>]\<rparr>)" by blast
  from 1 2 show ?thesis by (simp add: ids)
qed

subsection \<open>The archive keeps the name of the category\<close>

lemma update_category_got_dones: "got_dones (snd (update_category i rq d)) = got_dones d"
  by (simp add: update_category_def Let_def split: option.split)

lemma fold_session_delete_category_got_dones:
  "got_dones (fold session_delete_category cs d) = got_dones d"
  by (induction cs arbitrary: d) (simp_all add: session_delete_category_def)

lemma clear_categories_got_dones: "got_dones (snd (clear_categories d)) = got_dones d"
  by (simp add: clear_categories_def fold_session_delete_category_got_dones)

lemma run_category_ops_got_dones: "got_dones (run_category_ops ops d) = got_dones d"
  unfolding run_category_ops_def
proof (induction ops arbitrary: d)
  case Nil
  then show ?case by simp
next
  case (Cons a ops)
  have "got_dones (apply_category_op a d) = got_dones d"
    by (cases a) (simp_all add: update_category_got_dones clear_categories_got_dones)
  with Cons show ?case by simp
qed

text \<open>
  Claim C4. Completing a to-do whose category is \<open>c\<close> stores the name of \<open>c\<close> in the new
  \<^verbatim>\<open>got_dones\<close> row, and the row, with that name, is what the archive holds after any
  later sequence of renamings and deletions of categories.
\<close>

theorem snapshot_survives_category_changes:
  assumes "get_to_do d i = Inr (Some t)" and "parent_category d t = Some c"
  shows "got_dones (run_category_ops ops (snd (mark_done i today d))) =
           got_dones d @
             [\<lparr>done_id = next_id (map done_id (got_dones d)), done_name = todo_name t,
               done_category = cat_name c, done_date = Some today\<rparr>]"
  using assms
  by (simp add: run_category_ops_got_dones mark_done_Some session_delete_to_do_def)

theorem snapshot_survives_category_changes_witness:
  "got_dones (run_category_ops
                [Rename_category 2 (ex_post\<lparr>form_name := ''Office''\<rparr>), Delete_categories]
                (snd (mark_done 4 (2024, 6, 10) ex_db))) =
     [\<lparr>done_id = 2, done_name = ''Buy milk'', done_category = ''Home'',
       done_date = Some (2024, 5, 30)\<rparr>,
      \<lparr>done_id = 3, done_name = ''Write report'', done_category = ''Work'',
       done_date = Some (2024, 6, 10)\<rparr>]
   \<and> categories (run_category_ops [Rename_category 2 (ex_post\<lparr>form_name := ''Office''\<rparr>)]
                   (snd (mark_done 4 (2024, 6, 10) ex_db))) =
       [\<lparr>cat_id = 2, cat_name = ''Office''\<rparr>, \<lparr>cat_id = 3, cat_name = ''Home''\<rparr>]
   \<and> categories (run_category_ops
                   [Rename_category 2 (ex_post\<lparr>form_name := ''Office''\<rparr>), Delete_categories]
                   (snd (mark_done 4 (2024, 6, 10) ex_db))) = []"
proof -
  have c: "parent_category ex_db \<lparr>todo_id = 4, todo_name = ''Write report'', parent_id = Some 2,
                 due_date = Some (2024, 6, 10)\<rparr> = Some \<lparr>cat_id = 2, cat_name = ''Work''\<rparr>"
    by (simp add: parent_category_def get_category_def ex_db_def)
  have 1: "got_dones (run_category_ops
                [Rename_category 2 (ex_post\<lparr>form_name := ''Office''\<rparr>), Delete_categories]
                (snd (mark_done 4 (2024, 6, 10) ex_db))) =
     [\<lparr>done_id = 2, done_name = ''Buy milk'', done_category = ''Home'',
       done_date = Some (2024, 5, 30)\<rparr>,
      \<lparr>done_id = 3, done_name = ''Write report'', done_category = ''Work'',
       done_date = Some (2024, 6, 10)\<rparr>]"
    using snapshot_survives_category_changes [OF ex_get_to_do_4 c, of _ "(2024, 6, 10)"]
    by (simp add: ex_db_def next_id_def)
  have cats: "categories ex_db =
      [\<lparr>cat_id = 2, cat_name = ''Work''\<rparr>, \<lparr>cat_id = 3, cat_name = ''Home''\<rparr>]"
    by (simp add: ex_db_def)
  have d1: "categories (snd (mark_done 4 (2024, 6, 10) ex_db)) = categories ex_db"
    by (simp add: mark_done_Some [OF ex_get_to_do_4] session_delete_to_do_def)
  have v: "validate_on_submit (ex_post\<lparr>form_name := ''Office''\<rparr>)
             (category_form_errors (ex_post\<lparr>form_name := ''Office''\<rparr>))"
    by (rule validate_category_form)
       (simp_all add: ex_post_def data_required_def py_isspace_def)
  have 2: "categories (snd (update_category 2 (ex_post\<lparr>form_name := ''Office''\<rparr>)
                             (snd (mark_done 4 (2024, 6, 10) ex_db)))) =
       [\<lparr>cat_id = 2, cat_name = ''Office''\<rparr>, \<lparr>cat_id = 3, cat_name = ''Home''\<rparr>]"
    by (simp add: update_category_def v get_category_def d1 cats)
  have 3: "categories (snd (clear_categories d)) = []"
    if "categories d = [\<lparr>cat_id = 2, cat_name = ''Office''\<rparr>, \<lparr>cat_id = 3, cat_name = ''Home''\<rparr>]"
    for d
    using that by (simp add: clear_categories_def session_delete_category_def)
  from 1 2 3 [OF 2] show ?thesis by (simp add: run_category_ops_def)
qed

end
